theory Spec2Isabelle
  imports Main
begin

section \<open>The variant-calling driver \<open>varcal_minion.py\<close>\<close>

text \<open>
  The program is a Python script: a function \<open>minimap2_mapping\<close> and a main block. Both work
  on the file system and through helper functions imported from the module \<open>misc_ion\<close>, which
  is not part of the sources at hand. The model is a shallow embedding:
  \<^item> the world of a run is a record of the regular files (with content and modification
    time), of the directories, and of the log file that the root logger appends to, once
    the main block has attached its file handler;
  \<^item> a statement is a function from the world to a result (an error or a value), the new
    world and the events it produced, in order; an exception ends the run and keeps the
    effects that came before it;
  \<^item> every helper of \<open>misc_ion\<close>, and every library call whose result the program cannot
    fix (\<open>os.walk\<close>, \<open>os.path.abspath\<close>, the clock, the text and time of a log record), is a
    field of an environment record, so that each theorem with a free environment holds for
    every implementation of them;
  \<^item> each call of a helper and each log line is recorded as an event by the model itself.
\<close>

subsection \<open>Strings and paths\<close>

type_synonym path = string

text \<open>\<open>s.split(c)\<close> for a one-character separator: never empty, one more part than separators.\<close>

fun split :: "char \<Rightarrow> string \<Rightarrow> string list" where
  "split c [] = [[]]"
| "split c (x # xs) =
     (if x = c then [] # split c xs
      else (case split c xs of [] \<Rightarrow> [[x]] | p # ps \<Rightarrow> (x # p) # ps))"

text \<open>\<open>sep.join(xs)\<close>.\<close>

fun join :: "string \<Rightarrow> string list \<Rightarrow> string" where
  "join sep [] = []"
| "join sep [x] = x"
| "join sep (x # y # ys) = x @ sep @ join sep (y # ys)"

text \<open>\<open>s.startswith(p)\<close> and \<open>p in s\<close>.\<close>

fun startswith :: "string \<Rightarrow> string \<Rightarrow> bool" where
  "startswith s [] = True"
| "startswith [] (p # ps) = False"
| "startswith (x # xs) (p # ps) = (x = p \<and> startswith xs ps)"

fun contains :: "string \<Rightarrow> string \<Rightarrow> bool" where
  "contains [] p = (p = [])"
| "contains (x # xs) p = (startswith (x # xs) p \<or> contains xs p)"

text \<open>\<open>os.path.join(a, b)\<close> of \<open>posixpath\<close>, for two components.\<close>

definition os_path_join :: "path \<Rightarrow> path \<Rightarrow> path" where
  "os_path_join a b =
     (if startswith b ''/'' then b
      else if a = [] \<or> last a = CHR ''/'' then a @ b
      else a @ ''/'' @ b)"

subsection \<open>Errors, file system, events\<close>

datatype error =
    IndexError
  | Raised string

record file_data =
  content :: string
  mtime :: nat

text \<open>The field \<open>log_file\<close> is the file of the \<open>FileHandler\<close> attached to the root logger, if
  one is attached. The logger is global: \<open>minimap2_mapping\<close> logs through the handler that the
  main block has attached.\<close>

record world =
  files :: "path \<rightharpoonup> file_data"
  dirs :: "path set"
  log_file :: "path option"

text \<open>\<open>os.path.isfile(p)\<close>.\<close>

definition isfile :: "path \<Rightarrow> world \<Rightarrow> bool" where
  "isfile p w = (files w p \<noteq> None)"

datatype cmd =
    Str string
  | Tuple "string list"

text \<open>One constructor for each \<open>logger.info\<close> call of the program, with the values it prints.\<close>

datatype logmsg =
    Start_variant_calling
  | Arguments
  | Samples_will_be_analysed nat "string list"
  | No_samples_to_filter
  | Samples_will_be_filtered
  | Starting_sample_mapping
  | Exist_omitting path string
  | Mapping_sample string
  | Starting_variant_calling
  | End_of_pipeline

datatype event =
    Check_create_dir path
  | Add_file_handler path
  | Extract_read_list path
  | File_to_list path
  | Os_walk path
  | Execute_subprocess cmd bool
  | Samtools_faidx path
  | Create_reference_chunks path int
  | Info logmsg

type_synonym 'a prog = "world \<Rightarrow> (error + 'a) \<times> world \<times> event list"

definition ret :: "'a \<Rightarrow> 'a prog" where
  "ret x w = (Inr x, w, [])"

definition throw :: "error \<Rightarrow> 'a prog" where
  "throw e w = (Inl e, w, [])"

text \<open>Sequencing: an exception in the first part skips the second.\<close>

definition then_do :: "'a prog \<Rightarrow> ('a \<Rightarrow> 'b prog) \<Rightarrow> 'b prog" where
  "then_do m f w =
     (case m w of
        (Inl e, w1, t1) \<Rightarrow> (Inl e, w1, t1)
      | (Inr x, w1, t1) \<Rightarrow> (case f x w1 of (r, w2, t2) \<Rightarrow> (r, w2, t1 @ t2)))"

definition lift :: "error + 'a \<Rightarrow> 'a prog" where
  "lift r = (case r of Inl e \<Rightarrow> throw e | Inr x \<Rightarrow> ret x)"

text \<open>A call of a helper that may write, and of one that only reads.\<close>

definition call :: "event \<Rightarrow> (world \<Rightarrow> (error + 'a) \<times> world) \<Rightarrow> 'a prog" where
  "call e h w = (case h w of (r, w1) \<Rightarrow> (r, w1, [e]))"

definition look :: "event \<Rightarrow> (world \<Rightarrow> error + 'a) \<Rightarrow> 'a prog" where
  "look e h w = (h w, w, [e])"

text \<open>A \<open>for\<close> loop over a list, and one with an accumulator that the body only appends to.\<close>

fun for_each :: "('a \<Rightarrow> unit prog) \<Rightarrow> 'a list \<Rightarrow> unit prog" where
  "for_each body [] = ret ()"
| "for_each body (x # xs) = then_do (body x) (\<lambda>_. for_each body xs)"

fun collect :: "('a \<Rightarrow> error + 'b) \<Rightarrow> 'a list \<Rightarrow> error + 'b list" where
  "collect f [] = Inr []"
| "collect f (x # xs) =
     (case f x of
        Inl e \<Rightarrow> Inl e
      | Inr y \<Rightarrow> (case collect f xs of Inl e \<Rightarrow> Inl e | Inr ys \<Rightarrow> Inr (y # ys)))"

subsection \<open>The environment: \<open>misc_ion\<close> and the library\<close>

record env =
  check_create_dir :: "path \<Rightarrow> world \<Rightarrow> (error + unit) \<times> world"
  extract_read_list :: "path \<Rightarrow> world \<Rightarrow> error + path list"
  extract_sample_list :: "path \<Rightarrow> error + string"
  file_to_list :: "path \<Rightarrow> world \<Rightarrow> error + string list"
  execute_subprocess :: "cmd \<Rightarrow> bool \<Rightarrow> world \<Rightarrow> (error + unit) \<times> world"
  samtools_faidx :: "path \<Rightarrow> world \<Rightarrow> (error + unit) \<times> world"
  create_reference_chunks :: "path \<Rightarrow> int \<Rightarrow> world \<Rightarrow> (error + unit) \<times> world"
  os_walk :: "path \<Rightarrow> world \<Rightarrow> (path \<times> string list \<times> string list) list"
  abspath :: "path \<Rightarrow> path"
  now :: string
  created :: nat
  log_append :: "logmsg \<Rightarrow> file_data \<Rightarrow> file_data"

subsection \<open>Logging\<close>

text \<open>Line 224, \<open>logging.FileHandler(log_full_path)\<close>, with lines 225 to 233: the log file is
  opened for appending, which creates it when it is absent and fails when its directory
  does not exist; from then on the root logger writes to it. The file name of the log has
  no slash, so its directory is the log folder. The field \<open>created\<close> of the environment is
  the time that the clock gives to the new file.\<close>

definition add_file_handler :: "env \<Rightarrow> path \<Rightarrow> path \<Rightarrow> unit prog" where
  "add_file_handler E folder p w =
     (if folder \<in> dirs w
      then (Inr (),
            w\<lparr>files := (files w)(p \<mapsto>
                 (case files w p of None \<Rightarrow> \<lparr>content = [], mtime = created E\<rparr> | Some f \<Rightarrow> f)),
              log_file := Some p\<rparr>,
            [Add_file_handler p])
      else (Inl (Raised ''FileNotFoundError''), w, [Add_file_handler p]))"

text \<open>\<open>logger.info(m)\<close>: the record goes to the console and, when a file handler is attached,
  to the end of its file. The field \<open>log_append\<close> of the environment is what the handler
  makes of the file: the text it adds carries the time of the call, and the modification
  time is that of the write. Without a handler the root logger drops a record of this
  level; a log file that was removed while open stays removed.\<close>

definition log_write :: "env \<Rightarrow> logmsg \<Rightarrow> world \<Rightarrow> world" where
  "log_write E m w =
     (case log_file w of
        None \<Rightarrow> w
      | Some p \<Rightarrow>
          (case files w p of
             None \<Rightarrow> w
           | Some f \<Rightarrow> w\<lparr>files := (files w)(p \<mapsto> log_append E m f)\<rparr>))"

definition info :: "env \<Rightarrow> logmsg \<Rightarrow> unit prog" where
  "info E m w = (Inr (), log_write E m w, [Info m])"

subsection \<open>\<open>minimap2_mapping\<close> (lines 143 to 191)\<close>

text \<open>Line 170: \<open>name.split('.')[0].split('_')[1]\<close>. The first index is always in range, the
  second is not when the part before the first dot has no underscore.\<close>

definition filename_out :: "string \<Rightarrow> error + string" where
  "filename_out name =
     (case split CHR ''.'' name of
        [] \<Rightarrow> Inl IndexError
      | p # _ \<Rightarrow>
          (case split CHR ''_'' p of
             _ # k # _ \<Rightarrow> Inr k
           | _ \<Rightarrow> Inl IndexError))"

definition filename_bam_out :: "path \<Rightarrow> string \<Rightarrow> path" where
  "filename_bam_out out_sorted_bam k = os_path_join out_sorted_bam (k @ ''.sort.bam'')"

definition filename_bai_out :: "path \<Rightarrow> string \<Rightarrow> path" where
  "filename_bai_out out_sorted_bam k = os_path_join out_sorted_bam (k @ ''.sort.bam.bai'')"

definition cmd_minimap2 :: "path \<Rightarrow> path \<Rightarrow> path \<Rightarrow> cmd" where
  "cmd_minimap2 reference HQ_filename bam =
     Str (''minimap2 -ax map-ont '' @ reference @ '' '' @ HQ_filename
          @ '' | samtools view -bS -F 4 - | samtools sort -o '' @ bam)"

definition cmd_indexing :: "path \<Rightarrow> cmd" where
  "cmd_indexing bam = Tuple [''samtools'', ''index'', bam]"

text \<open>The body of the inner loop, lines 169 to 191, for one file \<open>name\<close> of directory \<open>root\<close>.\<close>

definition map_file :: "env \<Rightarrow> path \<Rightarrow> path \<Rightarrow> path \<Rightarrow> string \<Rightarrow> unit prog" where
  "map_file E out_sorted_bam reference root name =
     (let HQ_filename = os_path_join root name in
      case filename_out name of
        Inl e \<Rightarrow> throw e
      | Inr k \<Rightarrow>
          (let bam = filename_bam_out out_sorted_bam k;
               bai = filename_bai_out out_sorted_bam k
           in (\<lambda>w.
             if isfile bai w then info E (Exist_omitting bam k) w
             else
               then_do (info E (Mapping_sample k)) (\<lambda>_.
               then_do (call (Execute_subprocess (cmd_minimap2 reference HQ_filename bam) True)
                          (execute_subprocess E (cmd_minimap2 reference HQ_filename bam) True)) (\<lambda>_.
               call (Execute_subprocess (cmd_indexing bam) False)
                 (execute_subprocess E (cmd_indexing bam) False))) w)))"

text \<open>The two loops, lines 167 and 168. The listing of \<open>os.walk\<close> is taken when the loop starts.\<close>

definition minimap2_mapping :: "env \<Rightarrow> path \<Rightarrow> path \<Rightarrow> path \<Rightarrow> unit prog" where
  "minimap2_mapping E out_samples_filtered_dir out_sorted_bam reference =
     then_do (look (Os_walk out_samples_filtered_dir)
                (\<lambda>w. Inr (os_walk E out_samples_filtered_dir w))) (\<lambda>listing.
     for_each (\<lambda>(root, _, names).
       for_each (map_file E out_sorted_bam reference root) names) listing)"

subsection \<open>The main block (lines 197 to 308)\<close>

text \<open>The arguments that the main block reads. The parser also accepts \<open>--sample\<close>,
  \<open>--primers\<close>, \<open>--threads\<close>, \<open>--bayes\<close>, \<open>--min_allele_frequency\<close>, \<open>--min_base_quality\<close>,
  \<open>--min_mapping_quality\<close> and \<open>--ploidy\<close>; no line of the program reads them.\<close>

record arguments =
  arg_input_dir :: string
  arg_sample_list :: "string option"
  arg_reference :: string
  arg_chunks :: int
  arg_output :: string

definition output_dir :: "env \<Rightarrow> arguments \<Rightarrow> path" where
  "output_dir E a = abspath E (arg_output a)"

definition in_samples_filtered_dir :: "env \<Rightarrow> arguments \<Rightarrow> path" where
  "in_samples_filtered_dir E a =
     os_path_join (abspath E (arg_input_dir a)) ''Samples_Fastq/Filtered_Fastq''"

text \<open>\<open>output_dir.split('/')[-1]\<close>: \<open>split\<close> never returns the empty list.\<close>

definition group_name :: "env \<Rightarrow> arguments \<Rightarrow> string" where
  "group_name E a = last (split CHR ''/'' (output_dir E a))"

definition log_filename :: "env \<Rightarrow> arguments \<Rightarrow> string" where
  "log_filename E a =
     group_name E a @ ''_'' @ join ''_'' (split CHR '' '' (now E)) @ ''.log''"

definition log_folder :: "env \<Rightarrow> arguments \<Rightarrow> path" where
  "log_folder E a = os_path_join (output_dir E a) ''Logs''"

definition log_full_path :: "env \<Rightarrow> arguments \<Rightarrow> path" where
  "log_full_path E a = os_path_join (log_folder E a) (log_filename E a)"

text \<open>Lines 199 to 237: the output directory, the log folder, the logger.\<close>

definition startup :: "env \<Rightarrow> arguments \<Rightarrow> unit prog" where
  "startup E a =
     then_do (call (Check_create_dir (output_dir E a))
                (check_create_dir E (output_dir E a))) (\<lambda>_.
     then_do (call (Check_create_dir (log_folder E a))
                (check_create_dir E (log_folder E a))) (\<lambda>_.
     then_do (add_file_handler E (log_folder E a) (log_full_path E a)) (\<lambda>_.
     then_do (info E Start_variant_calling) (\<lambda>_.
     info E Arguments))))"

text \<open>Lines 239 to 264: the read files, \<open>sample_list\<close> and \<open>sample_list_F\<close>.\<close>

definition resolve :: "env \<Rightarrow> arguments \<Rightarrow> (path list \<times> string list \<times> string list) prog" where
  "resolve E a =
     then_do (look (Extract_read_list (in_samples_filtered_dir E a))
                (extract_read_list E (in_samples_filtered_dir E a))) (\<lambda>fastq.
     then_do (lift (collect (extract_sample_list E) fastq)) (\<lambda>sample_list.
     then_do (info E (Samples_will_be_analysed (length sample_list) sample_list)) (\<lambda>_.
     then_do
       (case arg_sample_list a of
          None \<Rightarrow>
            then_do (info E No_samples_to_filter) (\<lambda>_.
            lift (collect (extract_sample_list E) fastq))
        | Some f \<Rightarrow>
            then_do (info E Samples_will_be_filtered) (\<lambda>_.
            look (File_to_list f) (file_to_list E f))) (\<lambda>sample_list_F.
     ret (fastq, sample_list, sample_list_F)))))"

text \<open>Lines 266 to 286: two directories are created, the other paths are only computed.\<close>

definition out_bam_dir :: "env \<Rightarrow> arguments \<Rightarrow> path" where
  "out_bam_dir E a = os_path_join (output_dir E a) ''Bam''"

definition out_variant_dir :: "env \<Rightarrow> arguments \<Rightarrow> path" where
  "out_variant_dir E a = os_path_join (output_dir E a) ''Variants''"

definition out_stats_dir :: "env \<Rightarrow> arguments \<Rightarrow> path" where
  "out_stats_dir E a = os_path_join (output_dir E a) ''Stats''"

definition out_stats_bamstats_dir :: "env \<Rightarrow> arguments \<Rightarrow> path" where
  "out_stats_bamstats_dir E a = os_path_join (out_stats_dir E a) ''Bamstats''"

definition out_stats_coverage_dir :: "env \<Rightarrow> arguments \<Rightarrow> path" where
  "out_stats_coverage_dir E a = os_path_join (out_stats_dir E a) ''Coverage''"


definition out_annot_dir :: "env \<Rightarrow> arguments \<Rightarrow> path" where
  "out_annot_dir E a = os_path_join (output_dir E a) ''Annotation''"

definition out_annot_snpeff_dir :: "env \<Rightarrow> arguments \<Rightarrow> path" where
  "out_annot_snpeff_dir E a = os_path_join (out_annot_dir E a) ''snpeff''"

definition out_annot_user_dir :: "env \<Rightarrow> arguments \<Rightarrow> path" where
  "out_annot_user_dir E a = os_path_join (out_annot_dir E a) ''user''"

definition out_annot_user_aa_dir :: "env \<Rightarrow> arguments \<Rightarrow> path" where
  "out_annot_user_aa_dir E a = os_path_join (out_annot_dir E a) ''user_aa''"

definition out_annot_blast_dir :: "env \<Rightarrow> arguments \<Rightarrow> path" where
  "out_annot_blast_dir E a = os_path_join (out_annot_dir E a) ''blast''"

definition folders :: "env \<Rightarrow> arguments \<Rightarrow> unit prog" where
  "folders E a =
     then_do (call (Check_create_dir (out_bam_dir E a))
                (check_create_dir E (out_bam_dir E a))) (\<lambda>_.
     call (Check_create_dir (out_variant_dir E a))
       (check_create_dir E (out_variant_dir E a)))"

text \<open>Lines 288 to 296.\<close>

definition mapping :: "env \<Rightarrow> arguments \<Rightarrow> unit prog" where
  "mapping E a =
     then_do (info E Starting_sample_mapping) (\<lambda>_.
     minimap2_mapping E (in_samples_filtered_dir E a) (out_bam_dir E a) (arg_reference a))"

text \<open>Lines 298 to 308, in two parts: up to the index of the reference, and from the call
  of \<open>create_reference_chunks\<close> on.\<close>

definition indexing :: "env \<Rightarrow> arguments \<Rightarrow> unit prog" where
  "indexing E a =
     then_do (info E Starting_variant_calling) (\<lambda>_.
     call (Samtools_faidx (arg_reference a)) (samtools_faidx E (arg_reference a)))"

definition partitioning :: "env \<Rightarrow> arguments \<Rightarrow> unit prog" where
  "partitioning E a =
     then_do (call (Create_reference_chunks (arg_reference a) (arg_chunks a))
                (create_reference_chunks E (arg_reference a) (arg_chunks a))) (\<lambda>_.
     info E End_of_pipeline)"

text \<open>Everything that runs before \<open>minimap2_mapping\<close>, and the whole run. The values of
  \<open>fastq\<close>, \<open>sample_list\<close> and \<open>sample_list_F\<close> are not read after line 264.\<close>

definition before_mapping :: "env \<Rightarrow> arguments \<Rightarrow> unit prog" where
  "before_mapping E a =
     then_do (startup E a) (\<lambda>_.
     then_do (resolve E a) (\<lambda>_.
     folders E a))"

definition before_partitioning :: "env \<Rightarrow> arguments \<Rightarrow> unit prog" where
  "before_partitioning E a =
     then_do (before_mapping E a) (\<lambda>_.
     then_do (mapping E a) (\<lambda>_.
     indexing E a))"

definition main :: "env \<Rightarrow> arguments \<Rightarrow> unit prog" where
  "main E a = then_do (before_partitioning E a) (\<lambda>_. partitioning E a)"

subsection \<open>A reference environment\<close>

text \<open>Modelled from the spec: the module \<open>misc_ion\<close> is missing from the sources, so the
  helpers below follow the words of the specification. They are used only to run the
  program on concrete inputs; the general theorems hold for every environment.\<close>

text \<open>Modelled from the spec: the naming marker of a quality-filtered read file, missing
  from the live code; the specification's examples carry the tag \<open>HQ\<close>.\<close>

definition marker :: "string \<Rightarrow> bool" where
  "marker name = contains name ''HQ''"

text \<open>Modelled from the spec: \<open>check_create_dir\<close>, missing from the sources; create if absent,
  no error if present.\<close>

definition spec_check_create_dir :: "path \<Rightarrow> world \<Rightarrow> (error + unit) \<times> world" where
  "spec_check_create_dir p w = (Inr (), w\<lparr>dirs := insert p (dirs w)\<rparr>)"

text \<open>Modelled from the spec: \<open>extract_read_list\<close>, missing from the sources; the read files
  of the input directory that match the quality-filtered naming convention.\<close>

definition spec_extract_read_list ::
  "(path \<Rightarrow> world \<Rightarrow> (path \<times> string list \<times> string list) list) \<Rightarrow> path \<Rightarrow> world \<Rightarrow> error + path list" where
  "spec_extract_read_list walk d w =
     Inr (concat (map (\<lambda>(root, _, names). map (os_path_join root) (filter marker names))
                    (walk d w)))"

text \<open>Modelled from the spec: \<open>extract_sample_list\<close>, missing from the sources; the sample key
  of a read file, path and suffix stripped, so that \<open>HQ_S1_run1.fastq\<close> and
  \<open>HQ_S1_run2.fastq\<close> both give \<open>S1\<close>: the derivation of line 170 on the base name.\<close>

definition spec_extract_sample_list :: "path \<Rightarrow> error + string" where
  "spec_extract_sample_list p = filename_out (last (split CHR ''/'' p))"

text \<open>Modelled from the spec: \<open>file_to_list\<close>, missing from the sources; the identifiers of a
  file-backed allow-list, one on each line.\<close>

definition spec_file_to_list :: "path \<Rightarrow> world \<Rightarrow> error + string list" where
  "spec_file_to_list p w =
     (case files w p of
        None \<Rightarrow> Inl (Raised ''FileNotFoundError'')
      | Some f \<Rightarrow> Inr (filter (\<lambda>l. l \<noteq> []) (split (CHR 0x0A) (content f))))"

text \<open>Modelled from the spec: \<open>execute_subprocess\<close>, missing from the sources, together with
  the external tools; the sort step writes the file named last on the command line, the
  index step writes the index beside the sorted file.\<close>

definition spec_execute_subprocess :: "cmd \<Rightarrow> bool \<Rightarrow> world \<Rightarrow> (error + unit) \<times> world" where
  "spec_execute_subprocess c isShell w =
     (case c of
        Str s \<Rightarrow>
          (Inr (), w\<lparr>files := (files w)(last (split CHR '' '' s) \<mapsto>
                               \<lparr>content = ''BAM'', mtime = 1\<rparr>)\<rparr>)
      | Tuple ws \<Rightarrow>
          (Inr (), w\<lparr>files := (files w)(last ws @ ''.bai'' \<mapsto>
                               \<lparr>content = ''BAI'', mtime = 1\<rparr>)\<rparr>))"

text \<open>Modelled from the spec: \<open>samtools_faidx\<close>, missing from the sources; create the index of
  the reference if absent, reuse it if present.\<close>

definition spec_samtools_faidx :: "path \<Rightarrow> world \<Rightarrow> (error + unit) \<times> world" where
  "spec_samtools_faidx r w =
     (if isfile (r @ ''.fai'') w then (Inr (), w)
      else (Inr (), w\<lparr>files := (files w)(r @ ''.fai'' \<mapsto> \<lparr>content = ''FAI'', mtime = 1\<rparr>)\<rparr>))"

text \<open>Modelled from the spec: \<open>create_reference_chunks\<close>, missing from the sources; a chunk
  count of zero or less fails before the file system is touched, any other count writes the
  region list.\<close>

definition spec_create_reference_chunks :: "path \<Rightarrow> int \<Rightarrow> world \<Rightarrow> (error + unit) \<times> world" where
  "spec_create_reference_chunks r n w =
     (if n \<le> 0 then (Inl (Raised ''invalid chunk count''), w)
      else (Inr (), w\<lparr>files := (files w)(r @ ''.regions'' \<mapsto>
                               \<lparr>content = ''REGIONS'', mtime = 1\<rparr>)\<rparr>))"

text \<open>Modelled from the spec: the logging set-up is an external collaborator; the log file
  of the run gets one line for each record. The text of the line is left out.\<close>

definition spec_log_append :: "logmsg \<Rightarrow> file_data \<Rightarrow> file_data" where
  "spec_log_append m f = f\<lparr>content := content f @ ''record'' @ [CHR 0x0A], mtime := Suc (mtime f)\<rparr>"

definition spec_env :: "(path \<times> string list \<times> string list) list \<Rightarrow> env" where
  "spec_env listing =
     \<lparr>check_create_dir = spec_check_create_dir,
      extract_read_list = spec_extract_read_list (\<lambda>_ _. listing),
      extract_sample_list = spec_extract_sample_list,
      file_to_list = spec_file_to_list,
      execute_subprocess = spec_execute_subprocess,
      samtools_faidx = spec_samtools_faidx,
      create_reference_chunks = spec_create_reference_chunks,
      os_walk = (\<lambda>_ _. listing),
      abspath = (\<lambda>p. p),
      now = ''2021-11-22 10:00:00.000000'',
      created = 1,
      log_append = spec_log_append\<rparr>"

text \<open>A run directory with four read files, and an empty file system.\<close>

definition listing4 :: "(path \<times> string list \<times> string list) list" where
  "listing4 =
     [(''/in/Samples_Fastq/Filtered_Fastq'', [],
       [''HQ_S1.fastq'', ''HQ_S2.fastq'', ''HQ_S3.fastq'', ''HQ_S4.fastq''])]"

definition empty_fs :: world where
  "empty_fs = \<lparr>files = Map.empty, dirs = {}, log_file = None\<rparr>"

definition args0 :: arguments where
  "args0 =
     \<lparr>arg_input_dir = ''/in'', arg_sample_list = None, arg_reference = ''/ref.fa'',
      arg_chunks = 144679, arg_output = ''/out''\<rparr>"

subsection \<open>Observations on a run, and inputs for concrete runs\<close>

text \<open>The invocations of external commands among the events of a run.\<close>

fun is_invocation :: "event \<Rightarrow> bool" where
  "is_invocation (Execute_subprocess c sh) = True"
| "is_invocation _ = False"

definition invocations :: "event list \<Rightarrow> event list" where
  "invocations t = filter is_invocation t"

text \<open>A file system that holds the index of sample \<open>S1\<close> and not its sorted alignment file.\<close>

definition fs_bai_only :: world where
  "fs_bai_only =
     \<lparr>files = [''/out/Bam/S1.sort.bam.bai'' \<mapsto> \<lparr>content = ''BAI'', mtime = 7\<rparr>],
      dirs = {''/out/Bam''}, log_file = None\<rparr>"


text \<open>The first of these in the middle of a run: the log file of the run is open and has one
  record.\<close>

definition fs_bai_logged :: world where
  "fs_bai_logged =
     \<lparr>files = [''/out/Bam/S1.sort.bam.bai'' \<mapsto> \<lparr>content = ''BAI'', mtime = 7\<rparr>,
               ''/out/Logs/out_2021-11-22_10:00:00.000000.log'' \<mapsto>
                 \<lparr>content = ''record'' @ [CHR 0x0A], mtime = 8\<rparr>],
      dirs = {''/out'', ''/out/Logs'', ''/out/Bam''},
      log_file = Some ''/out/Logs/out_2021-11-22_10:00:00.000000.log''\<rparr>"

definition listing1 :: "(path \<times> string list \<times> string list) list" where
  "listing1 = [(''/in/Samples_Fastq/Filtered_Fastq'', [], [''HQ_S1.fastq''])]"

text \<open>An input directory with a file that does not carry the marker, one with a file whose
  name has no underscore, and one with two read files of the same sample.\<close>

definition listing_raw :: "(path \<times> string list \<times> string list) list" where
  "listing_raw =
     [(''/in/Samples_Fastq/Filtered_Fastq'', [], [''HQ_S1.fastq'', ''raw_S9.fastq''])]"

definition listing_plain :: "(path \<times> string list \<times> string list) list" where
  "listing_plain =
     [(''/in/Samples_Fastq/Filtered_Fastq'', [], [''HQ_S1.fastq'', ''S2.fastq'', ''HQ_S3.fastq''])]"

definition listing_runs :: "(path \<times> string list \<times> string list) list" where
  "listing_runs =
     [(''/in/Samples_Fastq/Filtered_Fastq'', [], [''HQ_S1_run1.fastq'', ''HQ_S1_run2.fastq''])]"

text \<open>Two allow-list files: one names a sample that is not among the read files.\<close>

definition fs_allow :: world where
  "fs_allow =
     \<lparr>files = [''/allow.txt'' \<mapsto> \<lparr>content = ''S1'' @ [CHR 0x0A] @ ''S9'' @ [CHR 0x0A], mtime = 3\<rparr>,
               ''/allow13.txt'' \<mapsto> \<lparr>content = ''S1'' @ [CHR 0x0A] @ ''S3'' @ [CHR 0x0A], mtime = 3\<rparr>],
      dirs = {}, log_file = None\<rparr>"













text \<open>Two worlds agree outside a set \<open>X\<close> of paths when they have the same directories, the
  same open log file and the same regular files, and every file outside \<open>X\<close> has the same
  content and modification time in both. Two runs have the same outcome outside \<open>X\<close> when
  they have the same result and the same events, in the same order, and end in worlds that
  agree outside \<open>X\<close>.\<close>

definition agree :: "path set \<Rightarrow> world \<Rightarrow> world \<Rightarrow> bool" where
  "agree X w w' =
     (dirs w = dirs w' \<and> log_file w = log_file w' \<and>
      (\<forall>q. isfile q w = isfile q w') \<and>
      (\<forall>q. q \<notin> X \<longrightarrow> files w q = files w' q))"

definition same_outcome ::
  "path set \<Rightarrow> (error + 'a) \<times> world \<times> event list \<Rightarrow> (error + 'a) \<times> world \<times> event list \<Rightarrow> bool" where
  "same_outcome X o1 o2 =
     (case o1 of (r1, w1, t1) \<Rightarrow>
        (case o2 of (r2, w2, t2) \<Rightarrow> r1 = r2 \<and> t1 = t2 \<and> agree X w1 w2))"

text \<open>The helpers and tools that run from the start of the main block to the end of the
  mapping stage do not read the content of the files in \<open>X\<close>: on worlds that agree outside
  \<open>X\<close> they give the same result and leave worlds that agree outside \<open>X\<close>.\<close>

definition insensitive :: "path set \<Rightarrow> env \<Rightarrow> bool" where
  "insensitive X E =
     (\<forall>w w'. agree X w w' \<longrightarrow>
        (\<forall>p. fst (check_create_dir E p w) = fst (check_create_dir E p w') \<and>
             agree X (snd (check_create_dir E p w)) (snd (check_create_dir E p w'))) \<and>
        (\<forall>c sh. fst (execute_subprocess E c sh w) = fst (execute_subprocess E c sh w') \<and>
             agree X (snd (execute_subprocess E c sh w)) (snd (execute_subprocess E c sh w'))) \<and>
        (\<forall>d. os_walk E d w = os_walk E d w'))"

text \<open>The world \<open>fs_allow\<close> with another content of the allow-list \<open>/allow13.txt\<close>.\<close>

definition fs_allow_other :: world where
  "fs_allow_other =
     \<lparr>files = [''/allow.txt'' \<mapsto> \<lparr>content = ''S1'' @ [CHR 0x0A] @ ''S9'' @ [CHR 0x0A], mtime = 3\<rparr>,
               ''/allow13.txt'' \<mapsto> \<lparr>content = ''S2'' @ [CHR 0x0A], mtime = 5\<rparr>],
      dirs = {}, log_file = None\<rparr>"

section \<open>Properties\<close>

subsection \<open>Auxiliary facts\<close>

lemmas prog_defs = then_do_def call_def look_def info_def lift_def ret_def throw_def

lemma split_ne: "split c s \<noteq> []"
  by (induction s) (auto split: list.splits)

lemma split_hd: "hd (split c s) = takeWhile (\<lambda>x. x \<noteq> c) s"
  by (induction s) (auto split: list.splits simp: split_ne)

lemma split_absent: "c \<notin> set s \<Longrightarrow> split c s = [s]"
  by (induction s) (auto split: list.splits)

lemma filename_out_no_underscore:
  assumes "CHR ''_'' \<notin> set (takeWhile (\<lambda>x. x \<noteq> CHR ''.'') name)"
  shows "filename_out name = Inl IndexError"
proof -
  obtain p ps where sp: "split CHR ''.'' name = p # ps"
    using split_ne [of "CHR ''.''" name] by (cases "split CHR ''.'' name") auto
  then have "p = takeWhile (\<lambda>x. x \<noteq> CHR ''.'') name"
    using split_hd [of "CHR ''.''" name] by simp
  with assms have "split CHR ''_'' p = [p]" by (simp add: split_absent)
  with sp show ?thesis by (simp add: filename_out_def)
qed

text \<open>A log record changes the open log file and nothing else.\<close>

lemma log_write_dirs [simp]: "dirs (log_write E m w) = dirs w"
  by (simp add: log_write_def split: option.splits)

lemma log_write_log_file [simp]: "log_file (log_write E m w) = log_file w"
  by (simp add: log_write_def split: option.splits)

lemma log_write_isfile [simp]: "isfile q (log_write E m w) = isfile q w"
  by (auto simp add: log_write_def isfile_def split: option.splits)

lemma log_write_files: "log_file w \<noteq> Some q \<Longrightarrow> files (log_write E m w) q = files w q"
  by (auto simp add: log_write_def split: option.splits)

text \<open>The name of the log file ends in \<open>.log\<close>, so the log file of a run is neither the
  sorted alignment file nor the index of a sample.\<close>

lemma last_os_path_join: "y \<noteq> [] \<Longrightarrow> last (os_path_join x y) = last y"
  by (simp add: os_path_join_def)

lemma log_is_no_artifact:
  "log_full_path E a \<noteq> filename_bam_out b k \<and> log_full_path E a \<noteq> filename_bai_out b k"
proof -
  have "last (log_full_path E a) = CHR ''g''"
    by (simp add: log_full_path_def log_filename_def last_os_path_join)
  moreover have "last (filename_bam_out b k) = CHR ''m''"
    by (simp add: filename_bam_out_def last_os_path_join)
  moreover have "last (filename_bai_out b k) = CHR ''i''"
    by (simp add: filename_bai_out_def last_os_path_join)
  ultimately show ?thesis by auto
qed

text \<open>The three ways through the loop body.\<close>

lemma map_file_skip:
  assumes "filename_out name = Inr k" and "isfile (filename_bai_out b k) w"
  shows "map_file E b r root name w =
           (Inr (), log_write E (Exist_omitting (filename_bam_out b k) k) w,
            [Info (Exist_omitting (filename_bam_out b k) k)])"
  using assms by (simp add: map_file_def Let_def prog_defs)

lemma map_file_run:
  assumes "filename_out name = Inr k" and "\<not> isfile (filename_bai_out b k) w"
  shows "map_file E b r root name w =
     (case execute_subprocess E (cmd_minimap2 r (os_path_join root name) (filename_bam_out b k))
             True (log_write E (Mapping_sample k) w) of
        (Inl e, w1) \<Rightarrow>
          (Inl e, w1,
           [Info (Mapping_sample k),
            Execute_subprocess (cmd_minimap2 r (os_path_join root name) (filename_bam_out b k)) True])
      | (Inr u, w1) \<Rightarrow>
          (case execute_subprocess E (cmd_indexing (filename_bam_out b k)) False w1 of
             (r2, w2) \<Rightarrow>
               (r2, w2,
                [Info (Mapping_sample k),
                 Execute_subprocess (cmd_minimap2 r (os_path_join root name) (filename_bam_out b k)) True,
                 Execute_subprocess (cmd_indexing (filename_bam_out b k)) False])))"
  using assms by (simp add: map_file_def Let_def prog_defs split: prod.splits sum.splits)

lemma map_file_abort:
  assumes "filename_out name = Inl e"
  shows "map_file E b r root name w = (Inl e, w, [])"
  using assms by (simp add: map_file_def Let_def prog_defs)

text \<open>A loop whose body fails on one of the elements, in whatever state, does not complete.\<close>

lemma for_each_abort:
  assumes "x \<in> set xs" and "\<And>w. \<exists>e w' t. body x w = (Inl e, w', t)"
  shows "\<exists>e w' t. for_each body xs w = (Inl e, w', t)"
  using assms(1)
proof (induction xs arbitrary: w)
  case Nil
  then show ?case by simp
next
  case (Cons y ys)
  show ?case
  proof (cases "body y w")
    case (fields res w1 t1)
    show ?thesis
    proof (cases res)
      case (Inl e)
      with fields show ?thesis by (simp add: then_do_def)
    next
      case (Inr u)
      with fields assms(2) [of w] have "x \<noteq> y" by auto
      with Cons.prems have "x \<in> set ys" by simp
      from Cons.IH [OF this, of w1] obtain e w' t where
        "for_each body ys w1 = (Inl e, w', t)" by blast
      with fields Inr show ?thesis by (simp add: then_do_def)
    qed
  qed
qed

text \<open>A loop that completes has run its body to completion on every element, and the
  events of each of these runs are among the events of the loop.\<close>

lemma for_each_events:
  assumes "for_each body xs w = (Inr u, w', t)" and "x \<in> set xs"
  shows "\<exists>w1 w2 t1. body x w1 = (Inr (), w2, t1) \<and> set t1 \<subseteq> set t"
  using assms
proof (induction xs arbitrary: w t)
  case Nil
  then show ?case by simp
next
  case (Cons y ys)
  from Cons.prems(1) obtain wa ta tb where
    y: "body y w = (Inr (), wa, ta)" and rest: "for_each body ys wa = (Inr u, w', tb)"
    and t: "t = ta @ tb"
    by (auto simp add: then_do_def split: prod.splits sum.splits)
  show ?case
  proof (cases "x = y")
    case True
    with y t show ?thesis by auto
  next
    case False
    with Cons.prems(2) have "x \<in> set ys" by simp
    from Cons.IH [OF rest this] t show ?thesis by auto
  qed
qed

lemma collect_map: "collect f xs = Inr ys \<Longrightarrow> map f xs = map Inr ys"
  by (induction xs arbitrary: ys) (auto split: sum.splits)

text \<open>What a completed sample resolution returns. The read files are listed in the world in
  which the resolution starts; the allow-list is read after two log records, in the world
  in which the resolution ends.\<close>

lemma resolve_result:
  assumes "resolve E a w = (Inr (fastq, sample_list, sample_list_F), w', t)"
  shows "extract_read_list E (in_samples_filtered_dir E a) w = Inr fastq \<and>
         collect (extract_sample_list E) fastq = Inr sample_list \<and>
         (case arg_sample_list a of
            None \<Rightarrow> sample_list_F = sample_list
          | Some f \<Rightarrow> file_to_list E f w' = Inr sample_list_F)"
  using assms
  by (auto simp add: resolve_def prog_defs split: prod.splits sum.splits option.splits)

subsection \<open>The mapping stage\<close>

text \<open>
  C1, as the code has it. For a file whose sample key can be derived, the mapping stage
  issues no external command exactly when the index file \<open>.sort.bam.bai\<close> of the sample
  exists; the sorted alignment file is not looked at. When the index exists the stage
  completes, and its only write is the record of the skip at the end of the open log file:
  the directories and every other file keep their content and modification time, and so do
  the sorted alignment file and its index when the logger is not set up or writes to the
  log file of the main block. When the index does not exist, the first command issued is
  the shell pipeline of the aligner.
\<close>

theorem mapping_skips_iff_index_exists:
  assumes "filename_out name = Inr k"
  shows "case map_file E b r root name w of
           (res, w', t) \<Rightarrow>
             (invocations t = [] \<longleftrightarrow> isfile (filename_bai_out b k) w) \<and>
             (isfile (filename_bai_out b k) w \<longrightarrow>
                res = Inr () \<and> dirs w' = dirs w \<and>
                (\<forall>q. log_file w \<noteq> Some q \<longrightarrow> files w' q = files w q) \<and>
                (log_file w = None \<or> log_file w = Some (log_full_path E a) \<longrightarrow>
                   files w' (filename_bam_out b k) = files w (filename_bam_out b k) \<and>
                   files w' (filename_bai_out b k) = files w (filename_bai_out b k))) \<and>
             (\<not> isfile (filename_bai_out b k) w \<longrightarrow>
                hd (invocations t) =
                  Execute_subprocess
                    (cmd_minimap2 r (os_path_join root name) (filename_bam_out b k)) True)"
proof (cases "isfile (filename_bai_out b k) w")
  case True
  have "files (log_write E m w) (filename_bam_out b k) = files w (filename_bam_out b k) \<and>
        files (log_write E m w) (filename_bai_out b k) = files w (filename_bai_out b k)"
    if "log_file w = None \<or> log_file w = Some (log_full_path E a)" for m
    using that log_is_no_artifact [of E a b k] by (auto simp add: log_write_files)
  with True assms show ?thesis
    by (simp add: map_file_skip invocations_def log_write_files)
next
  case False
  then show ?thesis using assms
    by (simp add: map_file_run invocations_def split: prod.splits sum.splits)
qed

text \<open>
  C1, witness: the file \<open>HQ_S1.fastq\<close> has the key \<open>S1\<close>; the theorem in the middle of a run,
  with the log file of the run open and the index of \<open>S1\<close> on disk. The skip is logged, the
  log file grows, the index keeps its content and modification time.
\<close>

theorem mapping_skips_iff_index_exists_witness:
  "filename_out ''HQ_S1.fastq'' = Inr ''S1'' \<and>
   isfile (filename_bai_out ''/out/Bam'' ''S1'') fs_bai_logged \<and>
   log_file fs_bai_logged = Some (log_full_path (spec_env listing1) args0) \<and>
   (case map_file (spec_env listing1) ''/out/Bam'' ''/ref.fa''
           ''/in/Samples_Fastq/Filtered_Fastq'' ''HQ_S1.fastq'' fs_bai_logged of
      (res, w', t) \<Rightarrow>
        invocations t = [] \<and> res = Inr () \<and> dirs w' = dirs fs_bai_logged \<and>
        files w' (filename_bam_out ''/out/Bam'' ''S1'')
          = files fs_bai_logged (filename_bam_out ''/out/Bam'' ''S1'') \<and>
        files w' (filename_bai_out ''/out/Bam'' ''S1'')
          = files fs_bai_logged (filename_bai_out ''/out/Bam'' ''S1'') \<and>
        files w' ''/out/Bam/S1.sort.bam.bai'' = Some \<lparr>content = ''BAI'', mtime = 7\<rparr> \<and>
        files w' ''/out/Logs/out_2021-11-22_10:00:00.000000.log''
          = Some \<lparr>content = ''record'' @ [CHR 0x0A] @ ''record'' @ [CHR 0x0A], mtime = 9\<rparr>)"
proof -
  have h: "filename_out ''HQ_S1.fastq'' = Inr ''S1''" by code_simp
  have i: "isfile (filename_bai_out ''/out/Bam'' ''S1'') fs_bai_logged" by code_simp
  have l: "log_file fs_bai_logged = Some (log_full_path (spec_env listing1) args0)"
    by code_simp
  have c: "case map_file (spec_env listing1) ''/out/Bam'' ''/ref.fa''
           ''/in/Samples_Fastq/Filtered_Fastq'' ''HQ_S1.fastq'' fs_bai_logged of
      (res, w', t) \<Rightarrow>
        files w' ''/out/Bam/S1.sort.bam.bai'' = Some \<lparr>content = ''BAI'', mtime = 7\<rparr> \<and>
        files w' ''/out/Logs/out_2021-11-22_10:00:00.000000.log''
          = Some \<lparr>content = ''record'' @ [CHR 0x0A] @ ''record'' @ [CHR 0x0A], mtime = 9\<rparr>"
    by code_simp
  from h i l c
    mapping_skips_iff_index_exists
      [OF h, where E = "spec_env listing1" and b = "''/out/Bam''" and r = "''/ref.fa''"
         and root = "''/in/Samples_Fastq/Filtered_Fastq''" and w = fs_bai_logged and a = args0]
  show ?thesis by (auto split: prod.splits)
qed

text \<open>
  C1, counterexample to the claim as stated (skip if and only if both the sorted alignment
  file and its index exist): in the middle of a run, with the index of \<open>S1\<close> on disk and no
  sorted alignment file, the stage skips the sample; it logs the skip and issues no
  command.
\<close>

theorem skip_without_alignment_file:
  "filename_out ''HQ_S1.fastq'' = Inr ''S1'' \<and>
   \<not> isfile (filename_bam_out ''/out/Bam'' ''S1'') fs_bai_logged \<and>
   isfile (filename_bai_out ''/out/Bam'' ''S1'') fs_bai_logged \<and>
   (case map_file (spec_env listing1) ''/out/Bam'' ''/ref.fa''
           ''/in/Samples_Fastq/Filtered_Fastq'' ''HQ_S1.fastq'' fs_bai_logged of
      (res, w', t) \<Rightarrow>
        res = Inr () \<and> invocations t = [] \<and>
        t = [Info (Exist_omitting ''/out/Bam/S1.sort.bam'' ''S1'')] \<and>
        \<not> isfile (filename_bam_out ''/out/Bam'' ''S1'') w')"
  by code_simp

text \<open>
  C3, as the code has it. The mapping stage does not use the list of the sample resolver
  and tests no naming marker: it walks the input directory itself, and when it completes,
  every file of the listing, whatever its name, has a sample key and was either skipped
  (its index existed) or handed to the aligner pipeline.
\<close>

theorem mapping_processes_every_file:
  assumes "minimap2_mapping E d b r w = (Inr u, w', t)"
    and "(root, ds, names) \<in> set (os_walk E d w)" and "name \<in> set names"
  shows "\<exists>k. filename_out name = Inr k \<and>
           (Info (Exist_omitting (filename_bam_out b k) k) \<in> set t \<or>
            Execute_subprocess
              (cmd_minimap2 r (os_path_join root name) (filename_bam_out b k)) True \<in> set t)"
proof -
  from assms(1) obtain t0 where
    outer: "for_each (\<lambda>(root, _, names). for_each (map_file E b r root) names)
              (os_walk E d w) w = (Inr u, w', t0)"
    and t: "t = Os_walk d # t0"
    by (auto simp add: minimap2_mapping_def then_do_def look_def split: prod.splits sum.splits)
  from for_each_events [OF outer assms(2)] obtain w1 w2 t1 where
    inner: "for_each (map_file E b r root) names w1 = (Inr (), w2, t1)"
    and t1: "set t1 \<subseteq> set t0"
    by auto
  from for_each_events [OF inner assms(3)] obtain w3 w4 t2 where
    one: "map_file E b r root name w3 = (Inr (), w4, t2)" and t2: "set t2 \<subseteq> set t1"
    by auto
  show ?thesis
  proof (cases "filename_out name")
    case (Inl e)
    with one show ?thesis by (simp add: map_file_abort)
  next
    case (Inr k)
    show ?thesis
    proof (cases "isfile (filename_bai_out b k) w3")
      case True
      with Inr one have "Info (Exist_omitting (filename_bam_out b k) k) \<in> set t2"
        by (auto simp add: map_file_skip)
      with t t1 t2 Inr show ?thesis by auto
    next
      case False
      with Inr one have
        "Execute_subprocess
           (cmd_minimap2 r (os_path_join root name) (filename_bam_out b k)) True \<in> set t2"
        by (auto simp add: map_file_run split: prod.splits sum.splits)
      with t t1 t2 Inr show ?thesis by auto
    qed
  qed
qed

text \<open>
  C3, witness: a directory with \<open>HQ_S1.fastq\<close> and \<open>raw_S9.fastq\<close>, the index of \<open>S1\<close> on
  disk. The stage completes; the file without the marker is mapped.
\<close>

theorem mapping_processes_every_file_witness:
  "minimap2_mapping (spec_env listing_raw) ''/in/Samples_Fastq/Filtered_Fastq'' ''/out/Bam''
       ''/ref.fa'' fs_bai_only
     = (Inr (),
        fs_bai_only\<lparr>files := (files fs_bai_only)
            (''/out/Bam/S9.sort.bam'' \<mapsto> \<lparr>content = ''BAM'', mtime = 1\<rparr>,
             ''/out/Bam/S9.sort.bam.bai'' \<mapsto> \<lparr>content = ''BAI'', mtime = 1\<rparr>)\<rparr>,
        [Os_walk ''/in/Samples_Fastq/Filtered_Fastq'',
         Info (Exist_omitting ''/out/Bam/S1.sort.bam'' ''S1''),
         Info (Mapping_sample ''S9''),
         Execute_subprocess
           (cmd_minimap2 ''/ref.fa'' ''/in/Samples_Fastq/Filtered_Fastq/raw_S9.fastq''
              ''/out/Bam/S9.sort.bam'') True,
         Execute_subprocess (cmd_indexing ''/out/Bam/S9.sort.bam'') False]) \<and>
   (''/in/Samples_Fastq/Filtered_Fastq'', [], [''HQ_S1.fastq'', ''raw_S9.fastq''])
     \<in> set (os_walk (spec_env listing_raw) ''/in/Samples_Fastq/Filtered_Fastq'' fs_bai_only) \<and>
   ''raw_S9.fastq'' \<in> set [''HQ_S1.fastq'', ''raw_S9.fastq''] \<and>
   (\<exists>k. filename_out ''raw_S9.fastq'' = Inr k \<and>
      (Info (Exist_omitting (filename_bam_out ''/out/Bam'' k) k)
         \<in> set [Os_walk ''/in/Samples_Fastq/Filtered_Fastq'',
                Info (Exist_omitting ''/out/Bam/S1.sort.bam'' ''S1''),
                Info (Mapping_sample ''S9''),
                Execute_subprocess
                  (cmd_minimap2 ''/ref.fa'' ''/in/Samples_Fastq/Filtered_Fastq/raw_S9.fastq''
                     ''/out/Bam/S9.sort.bam'') True,
                Execute_subprocess (cmd_indexing ''/out/Bam/S9.sort.bam'') False] \<or>
       Execute_subprocess
         (cmd_minimap2 ''/ref.fa''
            (os_path_join ''/in/Samples_Fastq/Filtered_Fastq'' ''raw_S9.fastq'')
            (filename_bam_out ''/out/Bam'' k)) True
         \<in> set [Os_walk ''/in/Samples_Fastq/Filtered_Fastq'',
                Info (Exist_omitting ''/out/Bam/S1.sort.bam'' ''S1''),
                Info (Mapping_sample ''S9''),
                Execute_subprocess
                  (cmd_minimap2 ''/ref.fa'' ''/in/Samples_Fastq/Filtered_Fastq/raw_S9.fastq''
                     ''/out/Bam/S9.sort.bam'') True,
                Execute_subprocess (cmd_indexing ''/out/Bam/S9.sort.bam'') False]))"
proof -
  have run:
    "minimap2_mapping (spec_env listing_raw) ''/in/Samples_Fastq/Filtered_Fastq'' ''/out/Bam''
         ''/ref.fa'' fs_bai_only
       = (Inr (),
          fs_bai_only\<lparr>files := (files fs_bai_only)
              (''/out/Bam/S9.sort.bam'' \<mapsto> \<lparr>content = ''BAM'', mtime = 1\<rparr>,
               ''/out/Bam/S9.sort.bam.bai'' \<mapsto> \<lparr>content = ''BAI'', mtime = 1\<rparr>)\<rparr>,
          [Os_walk ''/in/Samples_Fastq/Filtered_Fastq'',
           Info (Exist_omitting ''/out/Bam/S1.sort.bam'' ''S1''),
           Info (Mapping_sample ''S9''),
           Execute_subprocess
             (cmd_minimap2 ''/ref.fa'' ''/in/Samples_Fastq/Filtered_Fastq/raw_S9.fastq''
                ''/out/Bam/S9.sort.bam'') True,
           Execute_subprocess (cmd_indexing ''/out/Bam/S9.sort.bam'') False])"
    by (simp add: minimap2_mapping_def map_file_def Let_def prog_defs spec_env_def
        listing_raw_def filename_out_def filename_bam_out_def filename_bai_out_def
        os_path_join_def isfile_def fs_bai_only_def spec_execute_subprocess_def
        cmd_minimap2_def cmd_indexing_def log_write_def)
  have l: "(''/in/Samples_Fastq/Filtered_Fastq'', [], [''HQ_S1.fastq'', ''raw_S9.fastq''])
     \<in> set (os_walk (spec_env listing_raw) ''/in/Samples_Fastq/Filtered_Fastq'' fs_bai_only)"
    by (simp add: spec_env_def listing_raw_def)
  have n: "''raw_S9.fastq'' \<in> set [''HQ_S1.fastq'', ''raw_S9.fastq'']" by simp
  from run l n mapping_processes_every_file [OF run l n] show ?thesis by blast
qed

text \<open>
  C3, counterexample to the claim as stated (a file is mapped only if it carries the
  quality-filtered naming marker): in the directory of the witness, \<open>raw_S9.fastq\<close> does not
  carry the marker, and the aligner pipeline is invoked on it.
\<close>

theorem unmarked_file_is_mapped:
  "\<not> marker ''raw_S9.fastq'' \<and>
   Execute_subprocess
     (Str ''minimap2 -ax map-ont /ref.fa /in/Samples_Fastq/Filtered_Fastq/raw_S9.fastq | samtools view -bS -F 4 - | samtools sort -o /out/Bam/S9.sort.bam'')
     True
   \<in> set (invocations (snd (snd (minimap2_mapping (spec_env listing_raw)
        ''/in/Samples_Fastq/Filtered_Fastq'' ''/out/Bam'' ''/ref.fa'' empty_fs))))"
  by code_simp




text \<open>
  C10. For every file of the input tree whose name, cut at the first dot, contains no
  underscore, the derivation of the sample key raises \<open>IndexError\<close>; the loop body for that
  file ends with this error, without an event and without a change of the file system, so
  the file is neither skipped nor mapped; and the stage as a whole ends with an error.
\<close>

theorem key_derivation_partial:
  assumes "CHR ''_'' \<notin> set (takeWhile (\<lambda>x. x \<noteq> CHR ''.'') name)"
    and "(root, ds, names) \<in> set (os_walk E d w)" and "name \<in> set names"
  shows "filename_out name = Inl IndexError \<and>
         map_file E b r root name w0 = (Inl IndexError, w0, []) \<and>
         (\<exists>e w' t. minimap2_mapping E d b r w = (Inl e, w', t))"
proof -
  have k: "filename_out name = Inl IndexError"
    using assms(1) by (rule filename_out_no_underscore)
  have m: "\<And>root w. map_file E b r root name w = (Inl IndexError, w, [])"
    using k by (simp add: map_file_abort)
  have inner: "\<And>w. \<exists>e w' t. for_each (map_file E b r root) names w = (Inl e, w', t)"
    using for_each_abort [OF assms(3), of "map_file E b r root"] m by blast
  have "\<exists>e w' t. for_each (\<lambda>(root, _, names). for_each (map_file E b r root) names)
                    (os_walk E d w) w = (Inl e, w', t)"
    by (rule for_each_abort [OF assms(2)]) (simp add: inner)
  then have "\<exists>e w' t. minimap2_mapping E d b r w = (Inl e, w', t)"
    by (auto simp add: minimap2_mapping_def then_do_def look_def)
  with k m show ?thesis by blast
qed

text \<open>
  C10, witness: a directory with \<open>HQ_S1.fastq\<close>, \<open>S2.fastq\<close> and \<open>HQ_S3.fastq\<close>. The stage maps
  \<open>S1\<close> and then ends with \<open>IndexError\<close> at \<open>S2.fastq\<close>; the third file is not reached.
\<close>

theorem key_derivation_partial_witness:
  "CHR ''_'' \<notin> set (takeWhile (\<lambda>x. x \<noteq> CHR ''.'') ''S2.fastq'') \<and>
   (''/in/Samples_Fastq/Filtered_Fastq'', [], [''HQ_S1.fastq'', ''S2.fastq'', ''HQ_S3.fastq''])
     \<in> set (os_walk (spec_env listing_plain) ''/in/Samples_Fastq/Filtered_Fastq'' empty_fs) \<and>
   ''S2.fastq'' \<in> set [''HQ_S1.fastq'', ''S2.fastq'', ''HQ_S3.fastq''] \<and>
   filename_out ''S2.fastq'' = Inl IndexError \<and>
   map_file (spec_env listing_plain) ''/out/Bam'' ''/ref.fa'' ''/in/Samples_Fastq/Filtered_Fastq''
       ''S2.fastq'' empty_fs = (Inl IndexError, empty_fs, []) \<and>
   (\<exists>e w' t. minimap2_mapping (spec_env listing_plain) ''/in/Samples_Fastq/Filtered_Fastq''
                ''/out/Bam'' ''/ref.fa'' empty_fs = (Inl e, w', t)) \<and>
   fst (minimap2_mapping (spec_env listing_plain) ''/in/Samples_Fastq/Filtered_Fastq''
          ''/out/Bam'' ''/ref.fa'' empty_fs) = Inl IndexError \<and>
   invocations (snd (snd (minimap2_mapping (spec_env listing_plain)
       ''/in/Samples_Fastq/Filtered_Fastq'' ''/out/Bam'' ''/ref.fa'' empty_fs)))
     = [Execute_subprocess
          (cmd_minimap2 ''/ref.fa'' ''/in/Samples_Fastq/Filtered_Fastq/HQ_S1.fastq''
             ''/out/Bam/S1.sort.bam'') True,
        Execute_subprocess (cmd_indexing ''/out/Bam/S1.sort.bam'') False]"
proof -
  have u: "CHR ''_'' \<notin> set (takeWhile (\<lambda>x. x \<noteq> CHR ''.'') ''S2.fastq'')" by simp
  have l: "(''/in/Samples_Fastq/Filtered_Fastq'', [], [''HQ_S1.fastq'', ''S2.fastq'', ''HQ_S3.fastq''])
     \<in> set (os_walk (spec_env listing_plain) ''/in/Samples_Fastq/Filtered_Fastq'' empty_fs)"
    by (simp add: spec_env_def listing_plain_def)
  have n: "''S2.fastq'' \<in> set [''HQ_S1.fastq'', ''S2.fastq'', ''HQ_S3.fastq'']" by simp
  have e: "fst (minimap2_mapping (spec_env listing_plain) ''/in/Samples_Fastq/Filtered_Fastq''
          ''/out/Bam'' ''/ref.fa'' empty_fs) = Inl IndexError" by code_simp
  have i: "invocations (snd (snd (minimap2_mapping (spec_env listing_plain)
       ''/in/Samples_Fastq/Filtered_Fastq'' ''/out/Bam'' ''/ref.fa'' empty_fs)))
     = [Execute_subprocess
          (cmd_minimap2 ''/ref.fa'' ''/in/Samples_Fastq/Filtered_Fastq/HQ_S1.fastq''
             ''/out/Bam/S1.sort.bam'') True,
        Execute_subprocess (cmd_indexing ''/out/Bam/S1.sort.bam'') False]" by code_simp
  from u l n e i
    key_derivation_partial [OF u l n, of "''/out/Bam''" "''/ref.fa''" empty_fs]
  show ?thesis by blast
qed

subsection \<open>Facts on the main block\<close>























subsection \<open>The order of the stages\<close>




subsection \<open>Sample resolution\<close>

text \<open>
  C2, as the code has it. When no allow-list file is supplied, the working set
  \<open>sample_list_F\<close> is the list of the discovered samples. When an allow-list file is supplied,
  the working set is the list of identifiers that \<open>file_to_list\<close> reads from that file, as it
  is: it is not intersected with the discovered samples, and it equals that intersection
  exactly when every listed identifier was discovered. The file is read after the two log
  records of the resolution, that is, in the world in which the resolution ends.
\<close>

theorem working_set_is_allow_list:
  assumes "resolve E a w = (Inr (fastq, sample_list, sample_list_F), w', t)"
  shows "(arg_sample_list a = None \<longrightarrow> sample_list_F = sample_list) \<and>
         (\<forall>f. arg_sample_list a = Some f \<longrightarrow>
            file_to_list E f w' = Inr sample_list_F \<and>
            (set sample_list_F = set sample_list \<inter> set sample_list_F
               \<longleftrightarrow> set sample_list_F \<subseteq> set sample_list))"
  using resolve_result [OF assms] by (auto split: option.splits)

text \<open>
  C2, witness: the allow-list \<open>S1\<close>, \<open>S3\<close> and the discovered samples \<open>S1\<close> to \<open>S4\<close>; the
  working set is \<open>S1\<close>, \<open>S3\<close>.
\<close>

theorem working_set_is_allow_list_witness:
  "resolve (spec_env listing4) (args0\<lparr>arg_sample_list := Some ''/allow13.txt''\<rparr>) fs_allow
     = (Inr ([''/in/Samples_Fastq/Filtered_Fastq/HQ_S1.fastq'',
              ''/in/Samples_Fastq/Filtered_Fastq/HQ_S2.fastq'',
              ''/in/Samples_Fastq/Filtered_Fastq/HQ_S3.fastq'',
              ''/in/Samples_Fastq/Filtered_Fastq/HQ_S4.fastq''],
             [''S1'', ''S2'', ''S3'', ''S4''], [''S1'', ''S3'']),
        fs_allow,
        [Extract_read_list ''/in/Samples_Fastq/Filtered_Fastq'',
         Info (Samples_will_be_analysed 4 [''S1'', ''S2'', ''S3'', ''S4'']),
         Info Samples_will_be_filtered, File_to_list ''/allow13.txt'']) \<and>
   arg_sample_list (args0\<lparr>arg_sample_list := Some ''/allow13.txt''\<rparr>) = Some ''/allow13.txt'' \<and>
   file_to_list (spec_env listing4) ''/allow13.txt'' fs_allow = Inr [''S1'', ''S3''] \<and>
   set [''S1'', ''S3''] = set [''S1'', ''S2'', ''S3'', ''S4''] \<inter> set [''S1'', ''S3'']"
proof -
  have run:
    "resolve (spec_env listing4) (args0\<lparr>arg_sample_list := Some ''/allow13.txt''\<rparr>) fs_allow
       = (Inr ([''/in/Samples_Fastq/Filtered_Fastq/HQ_S1.fastq'',
                ''/in/Samples_Fastq/Filtered_Fastq/HQ_S2.fastq'',
                ''/in/Samples_Fastq/Filtered_Fastq/HQ_S3.fastq'',
                ''/in/Samples_Fastq/Filtered_Fastq/HQ_S4.fastq''],
               [''S1'', ''S2'', ''S3'', ''S4''], [''S1'', ''S3'']),
          fs_allow,
          [Extract_read_list ''/in/Samples_Fastq/Filtered_Fastq'',
           Info (Samples_will_be_analysed 4 [''S1'', ''S2'', ''S3'', ''S4'']),
           Info Samples_will_be_filtered, File_to_list ''/allow13.txt''])"
    by (simp add: resolve_def prog_defs spec_env_def listing4_def args0_def fs_allow_def
        spec_extract_read_list_def spec_extract_sample_list_def spec_file_to_list_def
        in_samples_filtered_dir_def os_path_join_def filename_out_def marker_def log_write_def)
  have s: "arg_sample_list (args0\<lparr>arg_sample_list := Some ''/allow13.txt''\<rparr>) = Some ''/allow13.txt''"
    by simp
  have sub: "set [''S1'', ''S3''] \<subseteq> set [''S1'', ''S2'', ''S3'', ''S4'']" by simp
  from run s sub working_set_is_allow_list [OF run] show ?thesis by blast
qed

text \<open>
  C2, counterexample to the claim as stated (the working set is the discovered samples
  intersected with the allow-list): with the allow-list \<open>S1\<close>, \<open>S9\<close> and the discovered
  samples \<open>S1\<close> to \<open>S4\<close>, the working set is \<open>S1\<close>, \<open>S9\<close>, and \<open>S9\<close> was not discovered.
\<close>

theorem working_set_not_intersected:
  "fst (resolve (spec_env listing4) (args0\<lparr>arg_sample_list := Some ''/allow.txt''\<rparr>) fs_allow) =
     Inr ([''/in/Samples_Fastq/Filtered_Fastq/HQ_S1.fastq'',
           ''/in/Samples_Fastq/Filtered_Fastq/HQ_S2.fastq'',
           ''/in/Samples_Fastq/Filtered_Fastq/HQ_S3.fastq'',
           ''/in/Samples_Fastq/Filtered_Fastq/HQ_S4.fastq''],
          [''S1'', ''S2'', ''S3'', ''S4''], [''S1'', ''S9'']) \<and>
   spec_file_to_list ''/allow.txt'' fs_allow = Inr [''S1'', ''S9''] \<and>
   set [''S1'', ''S9''] \<noteq> set [''S1'', ''S2'', ''S3'', ''S4''] \<inter> set [''S1'', ''S9'']"
  by code_simp

text \<open>
  C5, as the code has it. The output \<open>sample_list\<close> of the resolver has one identifier for
  each discovered read file, in the order of the read files: the key that
  \<open>extract_sample_list\<close> gives for that file. Nothing is merged, so the output is
  duplicate-free exactly when no two read files have the same key.
\<close>

theorem one_identifier_per_read_file:
  assumes "resolve E a w = (Inr (fastq, sample_list, sample_list_F), w', t)"
  shows "extract_read_list E (in_samples_filtered_dir E a) w = Inr fastq \<and>
         map (extract_sample_list E) fastq = map Inr sample_list \<and>
         length sample_list = length fastq \<and>
         (distinct sample_list \<longleftrightarrow> distinct (map (extract_sample_list E) fastq))"
proof -
  from resolve_result [OF assms] have
    r: "extract_read_list E (in_samples_filtered_dir E a) w = Inr fastq"
    and c: "collect (extract_sample_list E) fastq = Inr sample_list" by auto
  from collect_map [OF c] have m: "map (extract_sample_list E) fastq = map Inr sample_list" .
  then have l: "length sample_list = length fastq" by (metis length_map)
  have "distinct (map Inr sample_list :: (error + string) list) = distinct sample_list"
    by (simp add: distinct_map)
  with r m l show ?thesis by simp
qed

text \<open>
  C5, witness: the read files \<open>HQ_S1_run1.fastq\<close> and \<open>HQ_S1_run2.fastq\<close> give two
  identifiers.
\<close>

theorem one_identifier_per_read_file_witness:
  "resolve (spec_env listing_runs) args0 empty_fs
     = (Inr ([''/in/Samples_Fastq/Filtered_Fastq/HQ_S1_run1.fastq'',
              ''/in/Samples_Fastq/Filtered_Fastq/HQ_S1_run2.fastq''],
             [''S1'', ''S1''], [''S1'', ''S1'']),
        empty_fs,
        [Extract_read_list ''/in/Samples_Fastq/Filtered_Fastq'',
         Info (Samples_will_be_analysed 2 [''S1'', ''S1'']),
         Info No_samples_to_filter]) \<and>
   length [''S1'', ''S1''] =
     length [''/in/Samples_Fastq/Filtered_Fastq/HQ_S1_run1.fastq'',
             ''/in/Samples_Fastq/Filtered_Fastq/HQ_S1_run2.fastq''] \<and>
   map (extract_sample_list (spec_env listing_runs))
     [''/in/Samples_Fastq/Filtered_Fastq/HQ_S1_run1.fastq'',
      ''/in/Samples_Fastq/Filtered_Fastq/HQ_S1_run2.fastq''] = map Inr [''S1'', ''S1'']"
proof -
  have run:
    "resolve (spec_env listing_runs) args0 empty_fs
       = (Inr ([''/in/Samples_Fastq/Filtered_Fastq/HQ_S1_run1.fastq'',
                ''/in/Samples_Fastq/Filtered_Fastq/HQ_S1_run2.fastq''],
               [''S1'', ''S1''], [''S1'', ''S1'']),
          empty_fs,
          [Extract_read_list ''/in/Samples_Fastq/Filtered_Fastq'',
           Info (Samples_will_be_analysed 2 [''S1'', ''S1'']),
           Info No_samples_to_filter])"
    by (simp add: resolve_def prog_defs spec_env_def listing_runs_def args0_def empty_fs_def
        spec_extract_read_list_def spec_extract_sample_list_def
        in_samples_filtered_dir_def os_path_join_def filename_out_def marker_def log_write_def)
  from run one_identifier_per_read_file [OF run] show ?thesis by blast
qed

text \<open>
  C5, counterexample to the claim as stated (the output is duplicate-free): for the read
  files \<open>HQ_S1_run1.fastq\<close> and \<open>HQ_S1_run2.fastq\<close> the key \<open>S1\<close> appears twice in the output.
\<close>

theorem duplicate_sample_identifiers:
  "fst (resolve (spec_env listing_runs) args0 empty_fs) =
     Inr ([''/in/Samples_Fastq/Filtered_Fastq/HQ_S1_run1.fastq'',
           ''/in/Samples_Fastq/Filtered_Fastq/HQ_S1_run2.fastq''],
          [''S1'', ''S1''], [''S1'', ''S1'']) \<and>
   \<not> distinct [''S1'', ''S1'']"
  by code_simp

subsection \<open>The output layout\<close>














subsection \<open>The chunk count\<close>

lemma before_partitioning_chunks:
  "before_partitioning E (a\<lparr>arg_chunks := n\<rparr>) = before_partitioning E a"
  by (simp add: before_partitioning_def before_mapping_def startup_def resolve_def folders_def
      mapping_def indexing_def output_dir_def log_folder_def log_full_path_def log_filename_def
      group_name_def in_samples_filtered_dir_def out_bam_dir_def out_variant_dir_def)

text \<open>
  C6, as the code has it. The main block does not look at the chunk count \<open>N\<close>: for every
  \<open>N\<close>, also zero and below, the run up to and including the index of the reference is the
  run for any other \<open>N\<close>, with its writes to the file system; if it aborts, the run ends
  there, and if it completes, \<open>create_reference_chunks\<close> is called with the reference and \<open>N\<close>
  as given, and the result of that call is the result of the run, followed by the last
  line of the log when the call returns. A failure for \<open>N \<le> 0\<close> can
  therefore only come from inside \<open>create_reference_chunks\<close>, after layout, mapping and
  indexing have run.
\<close>

theorem chunk_count_not_checked_by_driver:
  "main E (a\<lparr>arg_chunks := n\<rparr>) w =
     (case before_partitioning E a w of
        (Inl e, w1, t1) \<Rightarrow> (Inl e, w1, t1)
      | (Inr u, w1, t1) \<Rightarrow>
          (case create_reference_chunks E (arg_reference a) n w1 of
             (Inl e, w2) \<Rightarrow> (Inl e, w2, t1 @ [Create_reference_chunks (arg_reference a) n])
           | (Inr v, w2) \<Rightarrow>
               (Inr (), log_write E End_of_pipeline w2,
                t1 @ [Create_reference_chunks (arg_reference a) n, Info End_of_pipeline])))"
  by (simp add: main_def before_partitioning_chunks partitioning_def prog_defs
      split: prod.splits sum.splits)

text \<open>
  C6, the theorem at a concrete run with \<open>N = 0\<close>: everything before the partitioning
  completes, and the run ends with the error of \<open>create_reference_chunks\<close>.
\<close>

theorem chunk_count_not_checked_by_driver_witness:
  "fst (before_partitioning (spec_env listing1) args0 empty_fs) = Inr () \<and>
   fst (main (spec_env listing1) (args0\<lparr>arg_chunks := 0\<rparr>) empty_fs)
     = Inl (Raised ''invalid chunk count'') \<and>
   main (spec_env listing1) (args0\<lparr>arg_chunks := 0\<rparr>) empty_fs =
     (case before_partitioning (spec_env listing1) args0 empty_fs of
        (Inl e, w1, t1) \<Rightarrow> (Inl e, w1, t1)
      | (Inr u, w1, t1) \<Rightarrow>
          (case create_reference_chunks (spec_env listing1) (arg_reference args0) 0 w1 of
             (Inl e, w2) \<Rightarrow> (Inl e, w2, t1 @ [Create_reference_chunks (arg_reference args0) 0])
           | (Inr v, w2) \<Rightarrow>
               (Inr (), log_write (spec_env listing1) End_of_pipeline w2,
                t1 @ [Create_reference_chunks (arg_reference args0) 0, Info End_of_pipeline])))"
proof -
  have b: "fst (before_partitioning (spec_env listing1) args0 empty_fs) = Inr ()" by code_simp
  have m: "fst (main (spec_env listing1) (args0\<lparr>arg_chunks := 0\<rparr>) empty_fs)
     = Inl (Raised ''invalid chunk count'')" by code_simp
  from b m chunk_count_not_checked_by_driver
    [where E = "spec_env listing1" and a = args0 and n = 0 and w = empty_fs]
  show ?thesis by blast
qed

text \<open>
  C6, counterexample to the claim as stated (for \<open>N \<le> 0\<close> the run fails before any
  partitioning work and before the file system is touched, no index being created): with
  \<open>N = 0\<close>, in the reference environment, where \<open>create_reference_chunks\<close> itself rejects
  \<open>N\<close> without writing, the run does fail, but by then the output folders exist, sample
  \<open>S1\<close> is mapped and the index of the reference has been created.
\<close>

theorem index_created_before_chunk_count_rejected:
  "(case main (spec_env listing1) (args0\<lparr>arg_chunks := 0\<rparr>) empty_fs of
      (res, w', t) \<Rightarrow>
        res = Inl (Raised ''invalid chunk count'') \<and>
        \<not> isfile ''/ref.fa.fai'' empty_fs \<and> isfile ''/ref.fa.fai'' w' \<and>
        isfile ''/out/Bam/S1.sort.bam'' w' \<and>
        dirs empty_fs = {} \<and> ''/out/Bam'' \<in> dirs w' \<and>
        Samtools_faidx ''/ref.fa'' \<in> set t)"
  by code_simp

subsection \<open>The allow-list and the mapping stage\<close>

lemma startup_sample_list: "startup E (a\<lparr>arg_sample_list := L\<rparr>) = startup E a"
  by (simp add: startup_def output_dir_def log_folder_def log_full_path_def log_filename_def
      group_name_def)

lemma folders_sample_list: "folders E (a\<lparr>arg_sample_list := L\<rparr>) = folders E a"
  by (simp add: folders_def output_dir_def out_bam_dir_def out_variant_dir_def)

lemma mapping_sample_list: "mapping E (a\<lparr>arg_sample_list := L\<rparr>) = mapping E a"
  by (simp add: mapping_def output_dir_def out_bam_dir_def in_samples_filtered_dir_def)

text \<open>Agreement outside \<open>X\<close> is an equivalence, and log records keep it: the same record in
  both worlds always, any two records when the open log file is in \<open>X\<close>.\<close>

lemma agree_refl: "agree X w w"
  by (simp add: agree_def)

lemma agree_sym: "agree X w w' \<Longrightarrow> agree X w' w"
  by (simp add: agree_def)

lemma agree_trans: "agree X w w' \<Longrightarrow> agree X w' w'' \<Longrightarrow> agree X w w''"
  by (simp add: agree_def)

lemma agree_isfile: "agree X w w' \<Longrightarrow> isfile q w = isfile q w'"
  by (simp add: agree_def)

lemma agree_log_write:
  assumes "agree X w w'"
  shows "agree X (log_write E m w) (log_write E m w')"
proof (cases "log_file w")
  case None
  with assms show ?thesis by (simp add: agree_def log_write_def)
next
  case (Some p)
  with assms have l: "log_file w' = Some p" by (simp add: agree_def)
  from assms have "isfile p w = isfile p w'" by (simp add: agree_def)
  then have e: "(files w p = None) = (files w' p = None)"
    unfolding isfile_def by blast
  show ?thesis
  proof (cases "files w p")
    case None
    with e Some l assms show ?thesis by (simp add: log_write_def)
  next
    case f: (Some f)
    with e obtain f' where f': "files w' p = Some f'" by auto
    have "f' = f" if "p \<notin> X" using that assms f f' by (auto simp add: agree_def)
    with assms Some l f f' show ?thesis
      by (auto simp add: agree_def log_write_def isfile_def)
  qed
qed

lemma agree_log_write_self:
  assumes "\<forall>p. log_file w = Some p \<longrightarrow> p \<in> X"
  shows "agree X w (log_write E m w)"
  using assms by (auto simp add: agree_def log_write_def isfile_def split: option.splits)

lemma agree_log_write_right:
  assumes "agree X w v" and "\<forall>p. log_file w = Some p \<longrightarrow> p \<in> X"
  shows "agree X w (log_write E m v)"
proof -
  from assms have "\<forall>p. log_file v = Some p \<longrightarrow> p \<in> X" by (simp add: agree_def)
  then have "agree X v (log_write E m v)" by (rule agree_log_write_self)
  with assms(1) show ?thesis by (rule agree_trans)
qed

text \<open>Statements on worlds that agree: the same outcome for the parts of a program gives
  the same outcome for the whole.\<close>

lemma same_outcome_then_do:
  assumes m: "same_outcome X (m w) (m' w')"
    and f: "\<And>x v v'. agree X v v' \<Longrightarrow> same_outcome X (f x v) (f' x v')"
  shows "same_outcome X (then_do m f w) (then_do m' f' w')"
proof -
  obtain r1 w1 t1 where a: "m w = (r1, w1, t1)" by (cases "m w") auto
  obtain r2 w2 t2 where b: "m' w' = (r2, w2, t2)" by (cases "m' w'") auto
  from m a b have eq: "r2 = r1" "t2 = t1" and ag: "agree X w1 w2"
    by (auto simp add: same_outcome_def)
  show ?thesis
  proof (cases r1)
    case (Inl e)
    with a b eq ag show ?thesis by (simp add: then_do_def same_outcome_def)
  next
    case (Inr x)
    obtain r3 w3 t3 where c: "f x w1 = (r3, w3, t3)" by (cases "f x w1") auto
    obtain r4 w4 t4 where d: "f' x w2 = (r4, w4, t4)" by (cases "f' x w2") auto
    from f [OF ag, of x] c d have "r4 = r3" "t4 = t3" "agree X w3 w4"
      by (auto simp add: same_outcome_def)
    with a b c d eq Inr show ?thesis by (simp add: then_do_def same_outcome_def)
  qed
qed

lemma same_outcome_info: "agree X w w' \<Longrightarrow> same_outcome X (info E m w) (info E m w')"
  by (simp add: same_outcome_def info_def agree_log_write)

lemma same_outcome_check_create_dir:
  assumes "insensitive X E" and "agree X w w'"
  shows "same_outcome X (call e (check_create_dir E p) w) (call e (check_create_dir E p) w')"
proof -
  from assms have "fst (check_create_dir E p w) = fst (check_create_dir E p w') \<and>
      agree X (snd (check_create_dir E p w)) (snd (check_create_dir E p w'))"
    unfolding insensitive_def by blast
  then show ?thesis
    by (auto simp add: same_outcome_def call_def split: prod.splits)
qed

lemma same_outcome_execute_subprocess:
  assumes "insensitive X E" and "agree X w w'"
  shows "same_outcome X (call e (execute_subprocess E c sh) w)
           (call e (execute_subprocess E c sh) w')"
proof -
  from assms have "fst (execute_subprocess E c sh w) = fst (execute_subprocess E c sh w') \<and>
      agree X (snd (execute_subprocess E c sh w)) (snd (execute_subprocess E c sh w'))"
    unfolding insensitive_def by blast
  then show ?thesis
    by (auto simp add: same_outcome_def call_def split: prod.splits)
qed

lemma same_outcome_add_file_handler:
  assumes "agree X w w'"
  shows "same_outcome X (add_file_handler E d p w) (add_file_handler E d p w')"
proof -
  from assms have "isfile p w = isfile p w'" by (simp add: agree_def)
  then have e: "(files w p = None) = (files w' p = None)"
    unfolding isfile_def by blast
  have "files w p = files w' p" if "p \<notin> X" using that assms by (simp add: agree_def)
  with assms e show ?thesis
    by (auto simp add: same_outcome_def add_file_handler_def agree_def isfile_def
        split: option.splits)
qed

lemma same_outcome_for_each:
  assumes body: "\<And>x v v'. agree X v v' \<Longrightarrow> same_outcome X (body x v) (body x v')"
  shows "agree X w w' \<Longrightarrow> same_outcome X (for_each body xs w) (for_each body xs w')"
proof (induction xs arbitrary: w w')
  case Nil
  then show ?case by (simp add: same_outcome_def ret_def)
next
  case (Cons y ys)
  show ?case
    unfolding for_each.simps
    by (rule same_outcome_then_do) (simp_all add: body Cons)
qed

lemma same_outcome_map_file:
  assumes ins: "insensitive X E" and ag: "agree X w w'"
  shows "same_outcome X (map_file E b r root name w) (map_file E b r root name w')"
proof (cases "filename_out name")
  case (Inl e)
  with ag show ?thesis by (simp add: map_file_abort same_outcome_def)
next
  case (Inr k)
  show ?thesis
  proof (cases "isfile (filename_bai_out b k) w")
    case True
    with ag have "isfile (filename_bai_out b k) w'" by (simp add: agree_isfile)
    with True Inr ag show ?thesis
      by (simp add: map_file_skip same_outcome_def agree_log_write)
  next
    case False
    with ag have f': "\<not> isfile (filename_bai_out b k) w'" by (simp add: agree_isfile)
    have "same_outcome X
       (then_do (info E (Mapping_sample k)) (\<lambda>_.
        then_do (call (Execute_subprocess
                         (cmd_minimap2 r (os_path_join root name) (filename_bam_out b k)) True)
                   (execute_subprocess E
                      (cmd_minimap2 r (os_path_join root name) (filename_bam_out b k)) True)) (\<lambda>_.
        call (Execute_subprocess (cmd_indexing (filename_bam_out b k)) False)
          (execute_subprocess E (cmd_indexing (filename_bam_out b k)) False))) w)
       (then_do (info E (Mapping_sample k)) (\<lambda>_.
        then_do (call (Execute_subprocess
                         (cmd_minimap2 r (os_path_join root name) (filename_bam_out b k)) True)
                   (execute_subprocess E
                      (cmd_minimap2 r (os_path_join root name) (filename_bam_out b k)) True)) (\<lambda>_.
        call (Execute_subprocess (cmd_indexing (filename_bam_out b k)) False)
          (execute_subprocess E (cmd_indexing (filename_bam_out b k)) False))) w')"
      by (intro same_outcome_then_do same_outcome_info same_outcome_execute_subprocess ins ag)
    with Inr False f' show ?thesis by (simp add: map_file_def Let_def)
  qed
qed

lemma same_outcome_minimap2_mapping:
  assumes ins: "insensitive X E" and ag: "agree X w w'"
  shows "same_outcome X (minimap2_mapping E d b r w) (minimap2_mapping E d b r w')"
proof -
  from ins ag have l: "os_walk E d w' = os_walk E d w" unfolding insensitive_def by metis
  have first: "same_outcome X (look (Os_walk d) (\<lambda>w. Inr (os_walk E d w)) w)
                 (look (Os_walk d) (\<lambda>w. Inr (os_walk E d w)) w')"
    using ag l by (simp add: same_outcome_def look_def)
  have inner: "same_outcome X (for_each (map_file E b r root) names v)
                 (for_each (map_file E b r root) names v')"
    if "agree X v v'" for root names v v'
    using that by (rule same_outcome_for_each [rotated]) (rule same_outcome_map_file [OF ins])
  show ?thesis
    unfolding minimap2_mapping_def
  proof (rule same_outcome_then_do
      [where m = "look (Os_walk d) (\<lambda>w. Inr (os_walk E d w))"
         and m' = "look (Os_walk d) (\<lambda>w. Inr (os_walk E d w))"])
    show "same_outcome X (look (Os_walk d) (\<lambda>w. Inr (os_walk E d w)) w)
            (look (Os_walk d) (\<lambda>w. Inr (os_walk E d w)) w')"
      by (rule first)
  next
    fix x v v'
    assume a: "agree X v v'"
    show "same_outcome X
        (for_each (\<lambda>(root, _, names). for_each (map_file E b r root) names) x v)
        (for_each (\<lambda>(root, _, names). for_each (map_file E b r root) names) x v')"
      apply (rule same_outcome_for_each)
       apply (simp add: inner split: prod.splits)
      apply (rule a)
      done
  qed
qed

lemma same_outcome_mapping:
  assumes "insensitive X E" and "agree X w w'"
  shows "same_outcome X (mapping E a w) (mapping E a w')"
  unfolding mapping_def
  by (intro same_outcome_then_do same_outcome_info same_outcome_minimap2_mapping assms)

lemma same_outcome_startup:
  assumes "insensitive X E" and "agree X w w'"
  shows "same_outcome X (startup E a w) (startup E a w')"
  unfolding startup_def
  by (intro same_outcome_then_do same_outcome_info same_outcome_check_create_dir
      same_outcome_add_file_handler assms)

lemma same_outcome_folders:
  assumes "insensitive X E" and "agree X w w'"
  shows "same_outcome X (folders E a w) (folders E a w')"
  unfolding folders_def
  by (intro same_outcome_then_do same_outcome_check_create_dir assms)

text \<open>After a completed start the log file of the run is open; the sample resolution
  writes to the log file only.\<close>

lemma startup_log_file:
  assumes "startup E a w = (Inr u, w1, t)"
  shows "log_file w1 = Some (log_full_path E a)"
  using assms
  by (auto simp add: startup_def add_file_handler_def prog_defs
      split: prod.splits sum.splits if_splits)

lemma resolve_self:
  assumes "\<forall>p. log_file w = Some p \<longrightarrow> p \<in> X" and "resolve E a w = (res, w1, t)"
  shows "agree X w w1"
  using assms(2)
  by (auto simp add: resolve_def prog_defs agree_refl
      intro!: agree_log_write_right [OF _ assms(1)] agree_log_write_self [OF assms(1)]
      split: prod.splits sum.splits option.splits)

text \<open>
  C9, as the code has it. Take two runs that differ in the \<open>--sample_list\<close> argument only
  (absent, present, or naming another file) or in the contents of the allow-list file, and
  that both reach the mapping stage, so that an allow-list, when given, could be read.
  Provided the helpers and the external tools do not themselves read the allow-list file
  or the log of the run (the files of \<open>X\<close>), the mapping stage starts in worlds that agree
  outside \<open>X\<close> and has the same outcome in both runs: the same result, the same events in
  the same order, so the same files mapped and the same external commands issued. The
  filtered sample list is not an input of the stage.
\<close>

theorem allow_list_does_not_reach_mapping:
  assumes "insensitive X E" and "agree X w w'" and "log_full_path E a \<in> X"
    and "before_mapping E a w = (Inr u, w1, t1)"
    and "before_mapping E (a\<lparr>arg_sample_list := L\<rparr>) w' = (Inr v, w2, t2)"
  shows "agree X w1 w2 \<and>
         same_outcome X (mapping E a w1) (mapping E (a\<lparr>arg_sample_list := L\<rparr>) w2) \<and>
         snd (snd (mapping E (a\<lparr>arg_sample_list := L\<rparr>) w2)) = snd (snd (mapping E a w1)) \<and>
         invocations (snd (snd (mapping E (a\<lparr>arg_sample_list := L\<rparr>) w2)))
           = invocations (snd (snd (mapping E a w1)))"
proof -
  from assms(4) obtain ws ts x wr tr tf where
    s1: "startup E a w = (Inr (), ws, ts)" and r1: "resolve E a ws = (Inr x, wr, tr)"
    and f1: "folders E a wr = (Inr (), w1, tf)"
    by (auto simp add: before_mapping_def then_do_def split: prod.splits sum.splits)
  from assms(5) obtain ws' ts' x' wr' tr' tf' where
    s2: "startup E a w' = (Inr (), ws', ts')"
    and r2: "resolve E (a\<lparr>arg_sample_list := L\<rparr>) ws' = (Inr x', wr', tr')"
    and f2: "folders E a wr' = (Inr (), w2, tf')"
    by (auto simp add: before_mapping_def then_do_def startup_sample_list folders_sample_list
        split: prod.splits sum.splits)
  from same_outcome_startup [OF assms(1,2), of a] s1 s2 have as: "agree X ws ws'"
    by (simp add: same_outcome_def)
  from startup_log_file [OF s1] assms(3) have l1: "\<forall>p. log_file ws = Some p \<longrightarrow> p \<in> X"
    by simp
  from startup_log_file [OF s2] assms(3) have l2: "\<forall>p. log_file ws' = Some p \<longrightarrow> p \<in> X"
    by simp
  from resolve_self [OF l1 r1] have "agree X wr ws" by (rule agree_sym)
  from this as have "agree X wr ws'" by (rule agree_trans)
  from this resolve_self [OF l2 r2] have ar: "agree X wr wr'" by (rule agree_trans)
  from same_outcome_folders [OF assms(1) ar, of a] f1 f2 have a12: "agree X w1 w2"
    by (simp add: same_outcome_def)
  from same_outcome_mapping [OF assms(1) a12, of a] have
    so: "same_outcome X (mapping E a w1) (mapping E (a\<lparr>arg_sample_list := L\<rparr>) w2)"
    by (simp add: mapping_sample_list)
  then have "snd (snd (mapping E (a\<lparr>arg_sample_list := L\<rparr>) w2)) = snd (snd (mapping E a w1))"
    by (auto simp add: same_outcome_def split: prod.splits)
  with a12 so show ?thesis by simp
qed

text \<open>The helpers of the reference environment read no file content at all.\<close>

lemma spec_env_insensitive: "insensitive X (spec_env listing)"
  unfolding insensitive_def
  by (auto simp add: spec_env_def spec_check_create_dir_def spec_execute_subprocess_def
      agree_def isfile_def split: cmd.splits)

text \<open>
  C9, witness: the run without an allow-list and the run with an allow-list, in worlds whose
  allow-list files differ in content, on four read files. Both reach the mapping stage, and
  in both the stage maps the four samples.
\<close>

theorem allow_list_does_not_reach_mapping_witness:
  "insensitive {''/allow13.txt'', log_full_path (spec_env listing4) args0} (spec_env listing4) \<and>
   agree {''/allow13.txt'', log_full_path (spec_env listing4) args0} fs_allow fs_allow_other \<and>
   files fs_allow ''/allow13.txt'' \<noteq> files fs_allow_other ''/allow13.txt'' \<and>
   fst (before_mapping (spec_env listing4) args0 fs_allow) = Inr () \<and>
   fst (before_mapping (spec_env listing4) (args0\<lparr>arg_sample_list := Some ''/allow13.txt''\<rparr>)
          fs_allow_other) = Inr () \<and>
   snd (snd (mapping (spec_env listing4) (args0\<lparr>arg_sample_list := Some ''/allow13.txt''\<rparr>)
       (fst (snd (before_mapping (spec_env listing4)
                    (args0\<lparr>arg_sample_list := Some ''/allow13.txt''\<rparr>) fs_allow_other)))))
     = snd (snd (mapping (spec_env listing4) args0
         (fst (snd (before_mapping (spec_env listing4) args0 fs_allow))))) \<and>
   [k. Info (Mapping_sample k) \<leftarrow>
         snd (snd (mapping (spec_env listing4) (args0\<lparr>arg_sample_list := Some ''/allow13.txt''\<rparr>)
           (fst (snd (before_mapping (spec_env listing4)
                        (args0\<lparr>arg_sample_list := Some ''/allow13.txt''\<rparr>) fs_allow_other)))))]
     = [''S1'', ''S2'', ''S3'', ''S4'']"
proof -
  let ?E = "spec_env listing4"
  let ?a = "args0\<lparr>arg_sample_list := Some ''/allow13.txt''\<rparr>"
  let ?X = "{''/allow13.txt'', log_full_path ?E args0}"
  have i: "insensitive ?X ?E" by (rule spec_env_insensitive)
  have g: "agree ?X fs_allow fs_allow_other"
    by (auto simp add: agree_def isfile_def fs_allow_def fs_allow_other_def)
  have d: "files fs_allow ''/allow13.txt'' \<noteq> files fs_allow_other ''/allow13.txt''"
    by (simp add: fs_allow_def fs_allow_other_def)
  have l: "log_full_path ?E args0 \<in> ?X" by simp
  have c1: "fst (before_mapping ?E args0 fs_allow) = Inr ()" by code_simp
  have c2: "fst (before_mapping ?E ?a fs_allow_other) = Inr ()" by code_simp
  have h1: "before_mapping ?E args0 fs_allow =
      (Inr (), fst (snd (before_mapping ?E args0 fs_allow)),
       snd (snd (before_mapping ?E args0 fs_allow)))"
    using c1 by (metis prod.collapse)
  have h2: "before_mapping ?E ?a fs_allow_other =
      (Inr (), fst (snd (before_mapping ?E ?a fs_allow_other)),
       snd (snd (before_mapping ?E ?a fs_allow_other)))"
    using c2 by (metis prod.collapse)
  have m: "[k. Info (Mapping_sample k) \<leftarrow>
               snd (snd (mapping ?E ?a (fst (snd (before_mapping ?E ?a fs_allow_other)))))]
     = [''S1'', ''S2'', ''S3'', ''S4'']"
    by code_simp
  from i g d c1 c2 m allow_list_does_not_reach_mapping [OF i g l h1 h2] show ?thesis by blast
qed

text \<open>
  C9, counterexample to the claim as stated (for any two runs that differ in the allow-list
  argument only, the mapping stage issues the same commands): the run without an allow-list
  issues eight commands in the mapping stage; the run with an allow-list that cannot be
  read ends in the sample resolution, and its mapping stage issues none.
\<close>

theorem unreadable_allow_list_stops_before_mapping:
  "fst (main (spec_env listing4) args0 fs_allow) = Inr () \<and>
   length (invocations (snd (snd (main (spec_env listing4) args0 fs_allow)))) = 8 \<and>
   arg_sample_list args0 = None \<and>
   files fs_allow ''/missing.txt'' = None \<and>
   fst (main (spec_env listing4) (args0\<lparr>arg_sample_list := Some ''/missing.txt''\<rparr>) fs_allow)
     = Inl (Raised ''FileNotFoundError'') \<and>
   invocations (snd (snd (main (spec_env listing4)
      (args0\<lparr>arg_sample_list := Some ''/missing.txt''\<rparr>) fs_allow))) = []"
  by code_simp

end
